theory Spec2Isabelle
  imports Complex_Main "HOL-Library.Char_ord" "HOL-Library.List_Lexorder" "HOL-Library.AList"
begin

section \<open>Data model\<close>

text \<open>
  The exceptions of the Python run time that the two programs can raise. A failed run is
  the exception together with the lines written to standard output before it.
\<close>

datatype py_error = KeyError | TypeError | ValueError | IndexError | OverflowError

type_synonym failure = "py_error \<times> string list"

text \<open>
  A naive \<open>datetime\<close>. The calendar date is kept as its proleptic Gregorian ordinal
  (\<open>date.toordinal()\<close>, 1 for 0001-01-01), which is what Python's date arithmetic and
  date comparison work on; \<open>dt.date()\<close> is the field \<open>ordinal\<close>.
\<close>

record datetime =
  ordinal :: nat
  hour :: nat
  minute :: nat
  second :: nat
  microsecond :: nat

definition MAXORDINAL :: nat where
  "MAXORDINAL = 3652059"

definition valid_datetime :: "datetime \<Rightarrow> bool" where
  "valid_datetime dt \<longleftrightarrow>
     1 \<le> ordinal dt \<and> ordinal dt \<le> MAXORDINAL \<and> hour dt < 24 \<and> minute dt < 60 \<and>
     second dt < 60 \<and> microsecond dt < 1000000"

text \<open>\<open>a < b\<close> on datetimes: the fields compared lexicographically.\<close>

definition dt_less :: "datetime \<Rightarrow> datetime \<Rightarrow> bool" where
  "dt_less a b \<longleftrightarrow>
     ordinal a < ordinal b \<or> (ordinal a = ordinal b \<and>
       (hour a < hour b \<or> (hour a = hour b \<and>
         (minute a < minute b \<or> (minute a = minute b \<and>
           (second a < second b \<or> (second a = second b \<and>
             microsecond a < microsecond b)))))))"


text \<open>\<open>datetime.combine(d, datetime.min.time())\<close> for the date with ordinal \<open>d\<close>.\<close>

definition midnight :: "nat \<Rightarrow> datetime" where
  "midnight d = \<lparr>ordinal = d, hour = 0, minute = 0, second = 0, microsecond = 0\<rparr>"

text \<open>
  \<open>datetime.combine(dt.date() + timedelta(days=1), datetime.min.time())\<close>: the date
  addition raises OverflowError past 9999-12-31.
\<close>

definition day_end :: "datetime \<Rightarrow> py_error + datetime" where
  "day_end dt =
     (if ordinal dt + 1 \<le> MAXORDINAL then Inr (midnight (ordinal dt + 1))
      else Inl OverflowError)"

text \<open>
  \<open>dt + timedelta(hours=1)\<close>: the fields are summed as a duration, normalised by
  divmod, and the result is refused when its day is out of range.
\<close>

definition plus_hour :: "datetime \<Rightarrow> py_error + datetime" where
  "plus_hour dt =
     (let secs = hour dt * 3600 + minute dt * 60 + second dt + 3600
                   + microsecond dt div 1000000;
          days = ordinal dt + secs div 86400;
          rem = secs mod 86400
      in if 0 < days \<and> days \<le> MAXORDINAL
         then Inr \<lparr>ordinal = days, hour = rem div 3600, minute = (rem mod 3600) div 60,
                   second = rem mod 60, microsecond = microsecond dt mod 1000000\<rparr>
         else Inl OverflowError)"

text \<open>
  One element of the JSON array in \<open>history.json\<close>: an object whose three keys may each
  be absent; a key that is present holds a string.
\<close>

record event =
  timestamp :: "string option"
  project :: "string option"
  color :: "string option"

type_synonym session = "datetime \<times> datetime \<times> string \<times> string"

section \<open>Timestamp parsing\<close>

text \<open>\<open>s.split(c)\<close> for a one-character separator: never empty.\<close>

fun split_chr :: "char \<Rightarrow> string \<Rightarrow> string list" where
  "split_chr c [] = [[]]"
| "split_chr c (x # xs) =
     (if x = c then [] # split_chr c xs
      else (case split_chr c xs of
              [] \<Rightarrow> [[x]]
            | p # ps \<Rightarrow> (x # p) # ps))"

text \<open>
  The body of the inner \<open>try\<close> of \<open>parse_event\<close> up to the second call of
  \<open>fromisoformat\<close>: the unpacking of \<open>ts.split("T")\<close> raises ValueError unless there are
  exactly two parts, and \<open>time_part[1]\<close> raises IndexError on a one-character time part.
\<close>

definition fix_timestamp :: "string \<Rightarrow> py_error + string" where
  "fix_timestamp ts =
     (case split_chr CHR ''T'' ts of
        [date_part, time_part] \<Rightarrow>
          (if length time_part > 0 then
             (if length time_part < 2 then Inl IndexError
              else if time_part ! 1 = CHR '':''
                   then Inr (date_part @ ''T'' @ (''0'' @ time_part))
                   else Inr (date_part @ ''T'' @ time_part))
           else Inr (date_part @ ''T'' @ time_part))
      | _ \<Rightarrow> Inl ValueError)"

text \<open>
  \<open>parse_event\<close>. The library function \<open>datetime.fromisoformat\<close> is a parameter:
  \<open>None\<close> stands for its ValueError. A missing \<open>timestamp\<close> key is a KeyError raised
  outside both \<open>try\<close> blocks; every failure of the fix-up is printed and raised again.
\<close>

definition parse_event :: "(string \<Rightarrow> datetime option) \<Rightarrow> event \<Rightarrow> failure + datetime" where
  "parse_event fromisoformat ev =
     (case timestamp ev of
        None \<Rightarrow> Inl (KeyError, [])
      | Some ts \<Rightarrow>
          (case fromisoformat ts of
             Some dt \<Rightarrow> Inr dt
           | None \<Rightarrow>
               (case fix_timestamp ts of
                  Inl e \<Rightarrow> Inl (e, [''Error parsing timestamp: '' @ ts])
                | Inr fixed_ts \<Rightarrow>
                    (case fromisoformat fixed_ts of
                       Some dt \<Rightarrow> Inr dt
                     | None \<Rightarrow> Inl (ValueError, [''Error parsing timestamp: '' @ ts])))))"

section \<open>SessionBuilder\<close>

text \<open>
  \<open>events.sort(key=lambda e: e.get("timestamp"))\<close>: a stable sort on the timestamp
  strings, compared as Python compares \<open>str\<close> (lexicographically by character). A missing
  key gives \<open>None\<close>, which cannot be compared with anything: as soon as the sort makes
  a comparison (two events or more) it raises TypeError.
\<close>

definition ts_key :: "event \<Rightarrow> string" where
  "ts_key e = (case timestamp e of Some ts \<Rightarrow> ts | None \<Rightarrow> [])"

definition sort_events :: "event list \<Rightarrow> failure + event list" where
  "sort_events events =
     (if 2 \<le> length events \<and> (\<exists>e \<in> set events. timestamp e = None)
      then Inl (TypeError, [])
      else Inr (sort_key ts_key events))"

definition get_project :: "event \<Rightarrow> string" where
  "get_project e = (case project e of Some p \<Rightarrow> p | None \<Rightarrow> ''Unknown'')"

definition get_event_color :: "event \<Rightarrow> string" where
  "get_event_color e = (case color e of Some c \<Rightarrow> c | None \<Rightarrow> ''#cccccc'')"

text \<open>
  The loop \<open>for i in range(len(events) - 1)\<close>: one session for each event that has a
  successor, in order; the first exception ends the run.
\<close>

fun pair_sessions :: "(string \<Rightarrow> datetime option) \<Rightarrow> event list \<Rightarrow> failure + session list" where
  "pair_sessions fromisoformat (e # e' # es) =
     (case parse_event fromisoformat e of
        Inl x \<Rightarrow> Inl x
      | Inr current \<Rightarrow>
          (case parse_event fromisoformat e' of
             Inl x \<Rightarrow> Inl x
           | Inr next_event \<Rightarrow>
               (case (if ordinal current = ordinal next_event then Inr next_event
                      else day_end current) of
                  Inl err \<Rightarrow> Inl (err, [])
                | Inr end_dt \<Rightarrow>
                    (case pair_sessions fromisoformat (e' # es) of
                       Inl x \<Rightarrow> Inl x
                     | Inr rest \<Rightarrow>
                         Inr ((current, end_dt, get_project e, get_event_color e) # rest)))))"
| "pair_sessions fromisoformat es = Inr []"

text \<open>\<open>sub in s\<close> on strings.\<close>

fun str_contains :: "string \<Rightarrow> string \<Rightarrow> bool" where
  "str_contains sub [] = (sub = [])"
| "str_contains sub (x # xs) = (take (length sub) (x # xs) = sub \<or> str_contains sub xs)"

text \<open>The session of \<open>events[-1]\<close>.\<close>

definition final_session :: "(string \<Rightarrow> datetime option) \<Rightarrow> event list \<Rightarrow> failure + session" where
  "final_session fromisoformat events =
     (if events = [] then Inl (IndexError, [])
      else
        (case parse_event fromisoformat (last events) of
           Inl x \<Rightarrow> Inl x
         | Inr final_event \<Rightarrow>
             (let final_project = get_project (last events);
                  final_color = get_event_color (last events)
              in if str_contains ''END_OF_DAY'' final_project
                 then Inr (final_event, final_event, final_project, final_color)
                 else (case plus_hour final_event of
                         Inl err \<Rightarrow> Inl (err, [])
                       | Inr final_end \<Rightarrow>
                           Inr (final_event, final_end, final_project, final_color)))))"

definition build_sessions :: "(string \<Rightarrow> datetime option) \<Rightarrow> event list \<Rightarrow> failure + session list" where
  "build_sessions fromisoformat events =
     (case sort_events events of
        Inl x \<Rightarrow> Inl x
      | Inr sorted_events \<Rightarrow>
          (case pair_sessions fromisoformat sorted_events of
             Inl x \<Rightarrow> Inl x
           | Inr sessions \<Rightarrow>
               (case final_session fromisoformat sorted_events of
                  Inl x \<Rightarrow> Inl x
                | Inr final \<Rightarrow> Inr (sessions @ [final]))))"

section \<open>Midnight splitting and grouping by day\<close>

text \<open>
  The \<open>while\<close> loop of \<open>split_session_by_day\<close>, with the list built so far; it returns
  the value of \<open>current\<close> on exit together with the list.
\<close>

function split_loop ::
  "datetime \<Rightarrow> datetime \<Rightarrow> string \<Rightarrow> string \<Rightarrow> session list
     \<Rightarrow> py_error + (datetime \<times> session list)" where
  "split_loop current end_dt proj col splits =
     (if ordinal current < ordinal end_dt then
        (case day_end current of
           Inl err \<Rightarrow> Inl err
         | Inr next_midnight \<Rightarrow>
             split_loop next_midnight end_dt proj col
               (splits @ [(current, next_midnight, proj, col)]))
      else Inr (current, splits))"
  by pat_completeness auto
termination
  by (relation "measure (\<lambda>(current, end_dt, proj, col, splits). ordinal end_dt - ordinal current)")
     (auto simp: day_end_def midnight_def split: if_splits)

declare split_loop.simps [simp del]

definition split_session_by_day ::
  "datetime \<Rightarrow> datetime \<Rightarrow> string \<Rightarrow> string \<Rightarrow> py_error + session list" where
  "split_session_by_day start end_dt proj col =
     (case split_loop start end_dt proj col [] of
        Inl err \<Rightarrow> Inl err
      | Inr (current, splits) \<Rightarrow>
          (if dt_less current end_dt then Inr (splits @ [(current, end_dt, proj, col)])
           else Inr splits))"

fun split_sessions :: "session list \<Rightarrow> py_error + session list" where
  "split_sessions [] = Inr []"
| "split_sessions ((start, end_dt, proj, col) # sessions) =
     (case (if ordinal start = ordinal end_dt then Inr [(start, end_dt, proj, col)]
            else split_session_by_day start end_dt proj col) of
        Inl err \<Rightarrow> Inl err
      | Inr parts \<Rightarrow>
          (case split_sessions sessions of
             Inl err \<Rightarrow> Inl err
           | Inr rest \<Rightarrow> Inr (parts @ rest)))"

text \<open>
  \<open>sessions_by_day\<close> is a dict in insertion order, here an association list. Its keys are
  the ISO texts \<open>YYYY-MM-DD\<close> of the start dates; the model keeps the ordinal of the date
  as the key, since on dates the zero-padded ISO text is injective and its string order
  is the order of the dates, so that \<open>sorted(keys)\<close> is the sorted list of ordinals.
\<close>

definition add_session :: "(nat \<times> session list) list \<Rightarrow> session \<Rightarrow> (nat \<times> session list) list" where
  "add_session by_day s =
     (let day = ordinal (fst s)
      in AList.update day ((case map_of by_day day of None \<Rightarrow> [] | Some l \<Rightarrow> l) @ [s]) by_day)"

definition group_by_day :: "session list \<Rightarrow> (nat \<times> session list) list" where
  "group_by_day sessions_split = foldl add_session [] sessions_split"

definition sorted_days :: "(nat \<times> session list) list \<Rightarrow> nat list" where
  "sorted_days by_day = sort (map fst by_day)"

section \<open>TimelineLayout\<close>

text \<open>
  Python's floats are modelled as the rationals they denote. Each float operation is the
  exact operation followed by rounding to the nearest double, and a decimal literal is
  the double nearest to it: the rounding function \<open>rnd\<close> is a parameter. Comparisons
  (also of a float with an \<open>int\<close>) are exact, and the small integers of this program
  convert to floats exactly.
\<close>

definition frac_hour :: "(rat \<Rightarrow> rat) \<Rightarrow> datetime \<Rightarrow> rat" where
  "frac_hour rnd dt =
     rnd (rnd (of_nat (hour dt) + rnd (of_nat (minute dt) / 60)) + rnd (of_nat (second dt) / 3600))"

text \<open>
  What is handed to the rendering backend: \<open>Rectangle((x, y), width, height, facecolor,
  edgecolor)\<close> added to the axes, and \<open>ax.text(x, y, s)\<close>. The constant styling arguments
  (alpha, line width, font size, alignment) are left out.
\<close>

datatype artist =
  Rectangle "rat \<times> rat" rat rat string string
| Text rat rat string

text \<open>The body of the inner plotting loop, for one session in column \<open>i\<close>.\<close>

definition draw_session :: "(rat \<Rightarrow> rat) \<Rightarrow> nat \<Rightarrow> session \<Rightarrow> artist list" where
  "draw_session rnd i s =
     (case s of (start, end_dt, proj, col) \<Rightarrow>
        (let start_hour = frac_hour rnd start;
             end_hour = (if ordinal end_dt \<noteq> ordinal start then rnd 24 else frac_hour rnd end_dt);
             duration = rnd (end_hour - start_hour)
         in [Rectangle (rnd (of_nat i - rnd (2 / 5)), start_hour) (rnd (4 / 5)) duration col ''black'']
            @ (if rnd (1 / 5) \<le> duration
               then [Text (of_nat i) (rnd (start_hour + rnd (duration / 2))) proj]
               else [])
            @ (if 19 < end_hour
               then (let outline_start = (if start_hour < 19 then 19 else start_hour);
                         outline_duration = rnd (end_hour - outline_start)
                     in [Rectangle (rnd (of_nat i - rnd (2 / 5)), outline_start) (rnd (4 / 5))
                           outline_duration ''none'' ''red''])
               else [])))"

text \<open>
  \<open>for i, day in enumerate(days): for ... in sessions_by_day[day]\<close>, from column \<open>i\<close>
  on; the subscript raises KeyError on a day that is not a key.
\<close>

fun plot_days ::
  "(rat \<Rightarrow> rat) \<Rightarrow> (nat \<times> session list) list \<Rightarrow> nat \<Rightarrow> nat list \<Rightarrow> py_error + artist list" where
  "plot_days rnd by_day i [] = Inr []"
| "plot_days rnd by_day i (day # days) =
     (case map_of by_day day of
        None \<Rightarrow> Inl KeyError
      | Some sessions \<Rightarrow>
          (case plot_days rnd by_day (Suc i) days of
             Inl err \<Rightarrow> Inl err
           | Inr rest \<Rightarrow> Inr (concat (map (draw_session rnd i) sessions) @ rest)))"

section \<open>The visualiser's entry point\<close>

text \<open>
  What the run finds at \<open>history.json\<close>: no file, a file that \<open>json.load\<close> rejects, or
  the decoded array of events. The run either prints one message and returns, or shows
  the chart: its columns (the sorted days) and its artists.
\<close>

datatype history_file = NotFound | NotJSON | Loaded "event list"

datatype outcome = Printed string | Shown "nat list" "artist list"

definition visualiser ::
  "(string \<Rightarrow> datetime option) \<Rightarrow> (rat \<Rightarrow> rat) \<Rightarrow> history_file \<Rightarrow> failure + outcome" where
  "visualiser fromisoformat rnd file =
     (case file of
        NotFound \<Rightarrow> Inr (Printed (''File '' @ [CHR 0x27] @ ''history.json'' @ [CHR 0x27] @ '' not found.''))
      | NotJSON \<Rightarrow> Inr (Printed ''Error: The file is not valid JSON.'')
      | Loaded events \<Rightarrow>
          (if events = [] then Inr (Printed ''No events found in history.'')
           else
             (case build_sessions fromisoformat events of
                Inl x \<Rightarrow> Inl x
              | Inr sessions \<Rightarrow>
                  (case split_sessions sessions of
                     Inl err \<Rightarrow> Inl (err, [])
                   | Inr sessions_split \<Rightarrow>
                       (let sessions_by_day = group_by_day sessions_split;
                            days = sorted_days sessions_by_day
                        in (case plot_days rnd sessions_by_day 0 days of
                              Inl err \<Rightarrow> Inl (err, [])
                            | Inr artists \<Rightarrow> Inr (Shown days artists)))))))"

section \<open>The dashboard: colours and switching\<close>

text \<open>
  \<open>get_color\<close> with the process-wide cache passed in and returned. The library
  functions are parameters: \<open>md5_int name\<close> is \<open>int(hashlib.md5(name.encode()).hexdigest(), 16)\<close>
  and \<open>hsv_to_rgb\<close> is \<open>colorsys.hsv_to_rgb\<close>.
\<close>

type_synonym rgb = "rat \<times> rat \<times> rat"

definition get_color ::
  "(string \<Rightarrow> nat) \<Rightarrow> (rat \<Rightarrow> rat \<Rightarrow> rat \<Rightarrow> rgb) \<Rightarrow> (rat \<Rightarrow> rat) \<Rightarrow> string \<Rightarrow> (string \<rightharpoonup> rgb)
     \<Rightarrow> rgb \<times> (string \<rightharpoonup> rgb)" where
  "get_color md5_int hsv_to_rgb rnd project_name cache =
     (case cache project_name of
        Some c \<Rightarrow> (c, cache)
      | None \<Rightarrow>
          (let hash_val = md5_int project_name;
               hue = rnd (of_nat (hash_val mod 360) / 360);
               saturation = rnd (3 / 5);
               val = rnd (9 / 10);
               c = hsv_to_rgb hue saturation val
           in (c, cache(project_name \<mapsto> c))))"

text \<open>
  The cache of a process that started with the empty cache and has called \<open>get_color\<close>
  on the given names, in order: the only writes to \<open>project_color_cache\<close> are those of
  \<open>get_color\<close>.
\<close>

definition cache_after ::
  "(string \<Rightarrow> nat) \<Rightarrow> (rat \<Rightarrow> rat \<Rightarrow> rat \<Rightarrow> rgb) \<Rightarrow> (rat \<Rightarrow> rat) \<Rightarrow> string list \<Rightarrow> (string \<rightharpoonup> rgb)" where
  "cache_after md5_int hsv_to_rgb rnd names =
     foldl (\<lambda>cache name. snd (get_color md5_int hsv_to_rgb rnd name cache)) Map.empty names"

text \<open>\<open>int(x)\<close> on a float truncates towards zero; \<open>'{:02x}'\<close> pads to two characters.\<close>

definition py_int :: "rat \<Rightarrow> int" where
  "py_int x = (if 0 \<le> x then \<lfloor>x\<rfloor> else \<lceil>x\<rceil>)"

definition hex_digit :: "nat \<Rightarrow> char" where
  "hex_digit d = ''0123456789abcdef'' ! d"

fun hex_digits :: "nat \<Rightarrow> string" where
  "hex_digits n = (if n < 16 then [hex_digit n] else hex_digits (n div 16) @ [hex_digit (n mod 16)])"

definition format_02x :: "int \<Rightarrow> string" where
  "format_02x n =
     (if n < 0 then ''-'' @ hex_digits (nat (- n))
      else (let d = hex_digits (nat n) in if length d < 2 then ''0'' @ d else d))"

definition rgb_to_hex :: "(rat \<Rightarrow> rat) \<Rightarrow> rgb \<Rightarrow> string" where
  "rgb_to_hex rnd c =
     (case c of (r, g, b) \<Rightarrow>
        ''#'' @ format_02x (py_int (rnd (r * 255))) @ format_02x (py_int (rnd (g * 255)))
          @ format_02x (py_int (rnd (b * 255))))"

text \<open>
  The module state of \<open>main.py\<close> that \<open>switch_project\<close> reads and writes: the globals, the
  contents of \<open>history.json\<close> as \<open>save_history\<close> last wrote them, and the text of the
  status label.
\<close>

record dashboard =
  current_project :: "string option"
  project_start_time :: "datetime option"
  history :: "event list"
  log_file :: "event list option"
  status_label :: string
  project_color_cache :: "string \<rightharpoonup> rgb"

text \<open>The colour text of a project without override: \<open>rgb_to_hex(get_color(project))\<close>.\<close>

definition assigned_color ::
  "(string \<Rightarrow> nat) \<Rightarrow> (rat \<Rightarrow> rat \<Rightarrow> rat \<Rightarrow> rgb) \<Rightarrow> (rat \<Rightarrow> rat) \<Rightarrow> string \<Rightarrow> (string \<rightharpoonup> rgb)
     \<Rightarrow> string \<times> (string \<rightharpoonup> rgb)" where
  "assigned_color md5_int hsv_to_rgb rnd proj cache =
     (case get_color md5_int hsv_to_rgb rnd proj cache of (c, cache') \<Rightarrow> (rgb_to_hex rnd c, cache'))"

text \<open>
  \<open>switch_project\<close>. The two readings of the clock are inputs: \<open>now\<close> is the first
  \<open>datetime.now()\<close> and \<open>stamp\<close> is the ISO text of the second. \<open>elif color_override\<close>
  is Python truthiness: \<open>None\<close> and the empty string both count as no override.
\<close>

definition switch_project ::
  "(string \<Rightarrow> nat) \<Rightarrow> (rat \<Rightarrow> rat \<Rightarrow> rat \<Rightarrow> rgb) \<Rightarrow> (rat \<Rightarrow> rat) \<Rightarrow> datetime \<Rightarrow> string
     \<Rightarrow> string \<Rightarrow> string option \<Rightarrow> dashboard \<Rightarrow> dashboard" where
  "switch_project md5_int hsv_to_rgb rnd now stamp proj color_override st =
     (if Some proj = current_project st then st
      else
        (case (if proj = ''END_OF_DAY'' then (''#ff6666'', project_color_cache st)
               else (case color_override of
                       None \<Rightarrow> assigned_color md5_int hsv_to_rgb rnd proj (project_color_cache st)
                     | Some c \<Rightarrow>
                         (if c = [] then assigned_color md5_int hsv_to_rgb rnd proj (project_color_cache st)
                          else (c, project_color_cache st)))) of
           (col, cache) \<Rightarrow>
             st\<lparr>current_project := Some proj,
                project_start_time := Some now,
                history := history st @ [\<lparr>timestamp = Some stamp, project = Some proj, color = Some col\<rparr>],
                log_file := Some (history st @ [\<lparr>timestamp = Some stamp, project = Some proj, color = Some col\<rparr>]),
                status_label := ''Current project: '' @ proj,
                project_color_cache := cache\<rparr>))"

section \<open>Example inputs\<close>

text \<open>
  The values of \<open>datetime.fromisoformat\<close> on the timestamps of the examples below, and
  its ValueError on every other text (among them the unpadded \<open>2024-01-01T9:00:00\<close> and
  \<open>2024-01-01 9:00:00\<close>); the separator between date and time may be any character.
  The date 2024-01-01 has the ordinal 738886.
\<close>

definition iso_example :: "string \<Rightarrow> datetime option" where
  "iso_example = map_of
     [(''2024-01-01T09:00:00'', \<lparr>ordinal = 738886, hour = 9, minute = 0, second = 0, microsecond = 0\<rparr>),
      (''2024-01-01 09:00:00'', \<lparr>ordinal = 738886, hour = 9, minute = 0, second = 0, microsecond = 0\<rparr>),
      (''2024-01-01T10:00:00'', \<lparr>ordinal = 738886, hour = 10, minute = 0, second = 0, microsecond = 0\<rparr>),
      (''2024-01-01T23:30:00'', \<lparr>ordinal = 738886, hour = 23, minute = 30, second = 0, microsecond = 0\<rparr>),
      (''2024-01-02T00:15:00'', \<lparr>ordinal = 738887, hour = 0, minute = 15, second = 0, microsecond = 0\<rparr>)]"

text \<open>
  Stand-ins for the library functions in the examples: a hash that is the length of the
  name, a conversion that returns the grey of the given value, and arithmetic without
  rounding. The state of the dashboard at start-up when there is no \<open>history.json\<close>.
\<close>

definition hash_example :: "string \<Rightarrow> nat" where
  "hash_example name = length name"

definition grey_example :: "rat \<Rightarrow> rat \<Rightarrow> rat \<Rightarrow> rgb" where
  "grey_example h s v = (v, v, v)"

definition exact :: "rat \<Rightarrow> rat" where
  "exact x = x"

definition dashboard_start :: dashboard where
  "dashboard_start =
     \<lparr>current_project = None, project_start_time = None, history = [], log_file = None,
      status_label = ''No project selected'', project_color_cache = Map.empty\<rparr>"

section \<open>Timestamp parsing: properties\<close>

lemma split_chr_no_sep: "c \<notin> set s \<Longrightarrow> split_chr c s = [s]"
  by (induction s) auto

lemma split_chr_one_sep:
  "c \<notin> set d \<Longrightarrow> c \<notin> set t \<Longrightarrow> split_chr c (d @ c # t) = [d, t]"
  by (induction d) (auto simp: split_chr_no_sep)

lemma fix_timestamp_unpadded:
  assumes "CHR ''T'' \<notin> set d" "h \<noteq> CHR ''T''" "CHR ''T'' \<notin> set rest"
  shows "fix_timestamp (d @ ''T'' @ h # '':'' @ rest) = Inr (d @ ''T0'' @ h # '':'' @ rest)"
  using assms by (simp add: fix_timestamp_def split_chr_one_sep)

lemma pair_sessions_parsed:
  "pair_sessions f evs = Inr ss \<Longrightarrow> e \<in> set (butlast evs) \<Longrightarrow> \<exists>dt. parse_event f e = Inr dt"
proof (induction f evs arbitrary: ss rule: pair_sessions.induct)
  case (1 f e1 e2 es)
  from "1.prems"(1) obtain cur where cur: "parse_event f e1 = Inr cur"
    by (cases "parse_event f e1") simp_all
  from "1.prems"(1) cur obtain nxt where nxt: "parse_event f e2 = Inr nxt"
    by (cases "parse_event f e2") simp_all
  from "1.prems"(1) cur nxt obtain end_dt
    where ed: "(if ordinal cur = ordinal nxt then Inr nxt else day_end cur) = Inr end_dt"
    by (cases "if ordinal cur = ordinal nxt then Inr nxt else day_end cur") simp_all
  with "1.prems"(1) cur nxt obtain rest where rest: "pair_sessions f (e2 # es) = Inr rest"
    by (cases "pair_sessions f (e2 # es)") simp_all
  from "1.prems"(2) have "e = e1 \<or> e \<in> set (butlast (e2 # es))" by auto
  then show ?case
  proof
    assume "e = e1"
    with cur show ?thesis by blast
  next
    assume "e \<in> set (butlast (e2 # es))"
    with "1.IH" [OF cur nxt ed rest] show ?thesis by blast
  qed
qed simp_all

lemma final_session_parsed:
  "final_session f evs = Inr s \<Longrightarrow> evs \<noteq> [] \<and> (\<exists>dt. parse_event f (last evs) = Inr dt)"
  by (cases "evs = []"; cases "parse_event f (last evs)") (simp_all add: final_session_def)

lemma build_sessions_parsed:
  assumes "build_sessions f events = Inr ss" and "e \<in> set events"
  shows "\<exists>dt. parse_event f e = Inr dt"
proof -
  from assms(1) obtain evs where evs: "sort_events events = Inr evs"
    by (cases "sort_events events") (simp_all add: build_sessions_def)
  then have evs_def: "evs = sort_key ts_key events"
    by (simp add: sort_events_def split: if_splits)
  from assms(1) evs obtain ps where ps: "pair_sessions f evs = Inr ps"
    by (cases "pair_sessions f evs") (simp_all add: build_sessions_def)
  from assms(1) evs ps obtain fin where fin: "final_session f evs = Inr fin"
    by (cases "final_session f evs") (simp_all add: build_sessions_def)
  from fin have ne: "evs \<noteq> []" and lst: "\<exists>dt. parse_event f (last evs) = Inr dt"
    using final_session_parsed by blast+
  from assms(2) have "e \<in> set evs" by (simp add: evs_def)
  with ne have "e \<in> set (butlast evs) \<or> e = last evs"
    by (metis append_butlast_last_id insert_iff list.set(2) rotate1.simps(2) set_rotate1)
  then show ?thesis
    using pair_sessions_parsed [OF ps] lst by blast
qed

lemma visualiser_Loaded_failure:
  "events \<noteq> [] \<Longrightarrow> build_sessions f events = Inl y \<Longrightarrow> visualiser f rnd (Loaded events) = Inl y"
  by (simp add: visualiser_def)

text \<open>
  Claim C9, as amended. For an event whose timestamp \<open>ts\<close> is present: when
  \<open>fromisoformat\<close> rejects \<open>ts\<close> and the fix-up either fails or yields a text that is
  rejected too, \<open>parse_event\<close> raises (after printing the offending timestamp); a datetime
  that \<open>parse_event\<close> returns is always the value of \<open>fromisoformat\<close> on \<open>ts\<close> or on its
  fixed form, never a substitute; a timestamp of the form \<open>date T h : rest\<close>, with a single
  \<open>T\<close> and a one-character hour before the first colon, that is accepted once a zero is
  put before the hour is parsed to that value; and an event on which \<open>parse_event\<close>
  raises is not dropped: every log that holds it makes the session builder, and with it
  the whole run of the visualiser, fail.
\<close>

theorem parse_event_malformed_fatal:
  assumes "timestamp ev = Some ts"
  shows "(fromisoformat ts = None \<and> (\<forall>fixed. fix_timestamp ts = Inr fixed \<longrightarrow> fromisoformat fixed = None)
            \<longrightarrow> (\<exists>e. parse_event fromisoformat ev = Inl (e, [''Error parsing timestamp: '' @ ts])))
       \<and> (\<forall>dt. parse_event fromisoformat ev = Inr dt
            \<longrightarrow> fromisoformat ts = Some dt
                \<or> (fromisoformat ts = None \<and> (\<exists>fixed. fix_timestamp ts = Inr fixed \<and> fromisoformat fixed = Some dt)))
       \<and> (\<forall>d h rest dt.
             ts = d @ ''T'' @ h # '':'' @ rest \<and> CHR ''T'' \<notin> set d \<and> h \<noteq> CHR ''T'' \<and> CHR ''T'' \<notin> set rest
             \<and> fromisoformat ts = None \<and> fromisoformat (d @ ''T0'' @ h # '':'' @ rest) = Some dt
            \<longrightarrow> parse_event fromisoformat ev = Inr dt)
       \<and> (\<forall>events rnd.
             ev \<in> set events \<and> (\<exists>x. parse_event fromisoformat ev = Inl x)
            \<longrightarrow> (\<exists>y. build_sessions fromisoformat events = Inl y
                     \<and> visualiser fromisoformat rnd (Loaded events) = Inl y))"
proof (intro conjI allI impI)
  assume "fromisoformat ts = None \<and> (\<forall>fixed. fix_timestamp ts = Inr fixed \<longrightarrow> fromisoformat fixed = None)"
  then show "\<exists>e. parse_event fromisoformat ev = Inl (e, [''Error parsing timestamp: '' @ ts])"
    using assms by (auto simp: parse_event_def split: sum.splits option.splits)
next
  fix dt
  assume "parse_event fromisoformat ev = Inr dt"
  then show "fromisoformat ts = Some dt
      \<or> (fromisoformat ts = None \<and> (\<exists>fixed. fix_timestamp ts = Inr fixed \<and> fromisoformat fixed = Some dt))"
    using assms by (auto simp: parse_event_def split: sum.splits option.splits)
next
  fix d h rest dt
  assume a: "ts = d @ ''T'' @ h # '':'' @ rest \<and> CHR ''T'' \<notin> set d \<and> h \<noteq> CHR ''T'' \<and> CHR ''T'' \<notin> set rest
             \<and> fromisoformat ts = None \<and> fromisoformat (d @ ''T0'' @ h # '':'' @ rest) = Some dt"
  then have fx: "fix_timestamp ts = Inr (d @ ''T0'' @ h # '':'' @ rest)"
    using fix_timestamp_unpadded[of d h rest] by simp
  from a have n: "fromisoformat ts = None"
    and s: "fromisoformat (d @ ''T0'' @ h # '':'' @ rest) = Some dt" by blast+
  show "parse_event fromisoformat ev = Inr dt"
    unfolding parse_event_def using s by (simp add: assms n fx)
next
  fix events :: "event list" and rnd :: "rat \<Rightarrow> rat"
  assume a: "ev \<in> set events \<and> (\<exists>x. parse_event fromisoformat ev = Inl x)"
  then have ne: "events \<noteq> []" by auto
  have "\<exists>y. build_sessions fromisoformat events = Inl y"
  proof (cases "build_sessions fromisoformat events")
    case (Inl y)
    then show ?thesis by blast
  next
    case (Inr ss)
    from build_sessions_parsed [OF Inr] a show ?thesis by fastforce
  qed
  then obtain y where y: "build_sessions fromisoformat events = Inl y" by blast
  with visualiser_Loaded_failure [OF ne y] show
    "\<exists>y. build_sessions fromisoformat events = Inl y
        \<and> visualiser fromisoformat rnd (Loaded events) = Inl y"
    by blast
qed

theorem parse_event_malformed_fatal_witness:
  "parse_event iso_example \<lparr>timestamp = Some ''2024-01-01T9:00:00'', project = None, color = None\<rparr>
     = Inr \<lparr>ordinal = 738886, hour = 9, minute = 0, second = 0, microsecond = 0\<rparr>
   \<and> (\<exists>e. parse_event iso_example \<lparr>timestamp = Some ''yesterday'', project = None, color = None\<rparr>
          = Inl (e, [''Error parsing timestamp: yesterday'']))
   \<and> (\<exists>y. visualiser iso_example exact
            (Loaded [\<lparr>timestamp = Some ''2024-01-01T09:00:00'', project = None, color = None\<rparr>,
                     \<lparr>timestamp = Some ''yesterday'', project = None, color = None\<rparr>]) = Inl y)"
proof -
  let ?ev = "\<lparr>timestamp = Some ''2024-01-01T9:00:00'', project = None, color = None\<rparr>"
  let ?bad = "\<lparr>timestamp = Some ''yesterday'', project = None, color = None\<rparr>"
  let ?log = "[\<lparr>timestamp = Some ''2024-01-01T09:00:00'', project = None, color = None\<rparr>, ?bad]"
  have 1: "timestamp ?ev = Some ''2024-01-01T9:00:00''" by simp
  have 2: "timestamp ?bad = Some ''yesterday''" by simp
  have a: "parse_event iso_example ?ev = Inr \<lparr>ordinal = 738886, hour = 9, minute = 0, second = 0, microsecond = 0\<rparr>"
    using parse_event_malformed_fatal[OF 1, of iso_example, THEN conjunct2, THEN conjunct2,
        THEN conjunct1, rule_format,
        of "''2024-01-01''" "CHR ''9''" "''00:00''" "\<lparr>ordinal = 738886, hour = 9, minute = 0, second = 0, microsecond = 0\<rparr>"]
    by (simp add: iso_example_def)
  have b: "\<exists>e. parse_event iso_example ?bad = Inl (e, [''Error parsing timestamp: yesterday''])"
    using parse_event_malformed_fatal[OF 2, of iso_example, THEN conjunct1]
    by (simp add: iso_example_def fix_timestamp_def)
  from b have b': "?bad \<in> set ?log \<and> (\<exists>x. parse_event iso_example ?bad = Inl x)" by auto
  have c: "\<exists>y. visualiser iso_example exact (Loaded ?log) = Inl y"
    using parse_event_malformed_fatal[OF 2, of iso_example, THEN conjunct2, THEN conjunct2,
        THEN conjunct2, rule_format, of ?log exact, OF b']
    by blast
  from a b c show ?thesis by blast
qed

text \<open>
  The claim as stated fails: a timestamp with a one-digit hour that is valid once the
  hour is zero-padded is not parsed when its date and time are separated by a space and
  not by \<open>T\<close>; the fix-up splits on \<open>T\<close> only, and the run is aborted.
\<close>

theorem parse_event_zero_pad_counterexample:
  "iso_example ''2024-01-01 9:00:00'' = None
   \<and> iso_example ''2024-01-01 09:00:00''
       = Some \<lparr>ordinal = 738886, hour = 9, minute = 0, second = 0, microsecond = 0\<rparr>
   \<and> parse_event iso_example \<lparr>timestamp = Some ''2024-01-01 9:00:00'', project = None, color = None\<rparr>
       = Inl (ValueError, [''Error parsing timestamp: 2024-01-01 9:00:00''])"
  by (simp add: parse_event_def iso_example_def fix_timestamp_def)

section \<open>The entry point: properties\<close>

text \<open>
  Claim C10. On a missing file, on a file that is not valid JSON and on an empty log the
  visualiser prints one message and returns: no session is built and no chart is shown
  (the outcome is \<open>Printed\<close>, whatever the parser and the rounding are), and the three
  messages are pairwise different.
\<close>

theorem visualiser_no_data_reports:
  "visualiser fromisoformat rnd NotFound
     = Inr (Printed (''File '' @ [CHR 0x27] @ ''history.json'' @ [CHR 0x27] @ '' not found.''))
   \<and> visualiser fromisoformat rnd NotJSON = Inr (Printed ''Error: The file is not valid JSON.'')
   \<and> visualiser fromisoformat rnd (Loaded []) = Inr (Printed ''No events found in history.'')
   \<and> distinct [''File '' @ [CHR 0x27] @ ''history.json'' @ [CHR 0x27] @ '' not found.'',
               ''Error: The file is not valid JSON.'', ''No events found in history.'']"
  by (simp add: visualiser_def)

section \<open>SessionBuilder: the final session\<close>

lemma str_contains_iff: "str_contains sub s \<longleftrightarrow> (\<exists>a b. s = a @ sub @ b)"
proof (induction s)
  case Nil
  then show ?case by auto
next
  case (Cons x xs)
  have pre: "take (length sub) (x # xs) = sub \<longleftrightarrow> (\<exists>b. x # xs = sub @ b)"
    by (metis append_eq_conv_conj append_take_drop_id)
  have "(\<exists>a b. x # xs = a @ sub @ b) \<longleftrightarrow> (\<exists>b. x # xs = sub @ b) \<or> (\<exists>a b. xs = a @ sub @ b)"
  proof
    assume "\<exists>a b. x # xs = a @ sub @ b"
    then obtain a b where ab: "x # xs = a @ sub @ b" by blast
    show "(\<exists>b. x # xs = sub @ b) \<or> (\<exists>a b. xs = a @ sub @ b)"
    proof (cases a)
      case Nil
      with ab show ?thesis by auto
    next
      case (Cons y ys)
      with ab have "xs = ys @ sub @ b" by simp
      then show ?thesis by blast
    qed
  next
    assume "(\<exists>b. x # xs = sub @ b) \<or> (\<exists>a b. xs = a @ sub @ b)"
    then show "\<exists>a b. x # xs = a @ sub @ b"
    proof
      assume "\<exists>b. x # xs = sub @ b"
      then obtain b where "x # xs = [] @ sub @ b" by auto
      then show ?thesis by blast
    next
      assume "\<exists>a b. xs = a @ sub @ b"
      then obtain a b where "x # xs = (x # a) @ sub @ b" by auto
      then show ?thesis by blast
    qed
  qed
  with Cons pre show ?case by simp
qed

lemma div_mult_add_less: "r < b \<Longrightarrow> (q * b + r) div b = (q::nat)"
  by simp

lemma mod_mult_add_less: "r < b \<Longrightarrow> (q * b + r) mod b = (r::nat)"
  by simp

lemma plus_hour_valid:
  assumes "valid_datetime dt"
  shows "plus_hour dt =
     (if hour dt < 23 then Inr (dt\<lparr>hour := hour dt + 1\<rparr>)
      else if ordinal dt < MAXORDINAL then Inr (dt\<lparr>ordinal := ordinal dt + 1, hour := 0\<rparr>)
      else Inl OverflowError)"
proof -
  from assms have v: "1 \<le> ordinal dt" "ordinal dt \<le> MAXORDINAL" "hour dt < 24" "minute dt < 60"
    "second dt < 60" "microsecond dt < 1000000"
    by (simp_all add: valid_datetime_def)
  define x where "x = minute dt * 60 + second dt"
  define secs where "secs = hour dt * 3600 + minute dt * 60 + second dt + 3600
                   + microsecond dt div 1000000"
  have x: "x < 3600" using v by (simp add: x_def)
  have secs: "secs = (hour dt + 1) * 3600 + x" using v by (simp add: secs_def x_def)
  have xd: "x div 60 = minute dt" unfolding x_def using v(5) by (rule div_mult_add_less)
  have xm: "x mod 60 = second dt" unfolding x_def using v(5) by (rule mod_mult_add_less)
  have ph: "plus_hour dt =
     (if 0 < ordinal dt + secs div 86400 \<and> ordinal dt + secs div 86400 \<le> MAXORDINAL
      then Inr \<lparr>ordinal = ordinal dt + secs div 86400, hour = (secs mod 86400) div 3600,
                minute = ((secs mod 86400) mod 3600) div 60,
                second = (secs mod 86400) mod 60, microsecond = microsecond dt mod 1000000\<rparr>
      else Inl OverflowError)"
    by (simp add: plus_hour_def Let_def secs_def)
  have us: "microsecond dt mod 1000000 = microsecond dt" using v by simp
  show ?thesis
  proof (cases "hour dt < 23")
    case True
    then have lt: "secs < 86400" using x by (simp add: secs)
    have d: "secs div 86400 = 0" and r: "secs mod 86400 = secs" using lt by simp_all
    have h: "secs div 3600 = hour dt + 1" unfolding secs using x by (rule div_mult_add_less)
    have m: "secs mod 3600 = x" unfolding secs using x by (rule mod_mult_add_less)
    have "secs = ((hour dt + 1) * 60 + minute dt) * 60 + second dt"
      by (simp add: secs x_def)
    then have s: "secs mod 60 = second dt" using v(5) by (simp only: mod_mult_add_less)
    show ?thesis using True v by (simp add: ph d r h m xd s us)
  next
    case False
    with v have h23: "hour dt = 23" by simp
    have eq: "secs = 1 * 86400 + x" using h23 by (simp add: secs)
    have x2: "x < 86400" using x by simp
    have d: "secs div 86400 = 1" unfolding eq using x2 by (rule div_mult_add_less)
    have r: "secs mod 86400 = x" unfolding eq using x2 by (rule mod_mult_add_less)
    have r1: "x div 3600 = 0" and r2: "x mod 3600 = x" using x by simp_all
    show ?thesis using False v h23 by (auto simp add: ph d r r1 r2 xd xm us)
  qed
qed

text \<open>
  Claim C2, as amended. For a non-empty log whose last event parses to a valid datetime:
  the last session has zero duration (end = start) exactly when the project of the last
  event contains the text \<open>END_OF_DAY\<close> (the sentinel itself or any label around it);
  otherwise its end is its start plus one hour, which is the next hour of the same day, or
  the first hour of the next day for a start from 23:00 on, and the run fails with
  OverflowError when that day would lie past 9999-12-31.
\<close>

theorem final_session_synthesized:
  assumes "events \<noteq> []" and "parse_event fromisoformat (last events) = Inr dt"
    and "valid_datetime dt"
  shows "final_session fromisoformat events =
    (if \<exists>a b. get_project (last events) = a @ ''END_OF_DAY'' @ b
     then Inr (dt, dt, get_project (last events), get_event_color (last events))
     else if hour dt < 23
     then Inr (dt, dt\<lparr>hour := hour dt + 1\<rparr>, get_project (last events), get_event_color (last events))
     else if ordinal dt < MAXORDINAL
     then Inr (dt, dt\<lparr>ordinal := ordinal dt + 1, hour := 0\<rparr>,
               get_project (last events), get_event_color (last events))
     else Inl (OverflowError, []))"
proof -
  have c: "str_contains ''END_OF_DAY'' (get_project (last events))
             \<longleftrightarrow> (\<exists>a b. get_project (last events) = a @ ''END_OF_DAY'' @ b)"
    by (rule str_contains_iff)
  show ?thesis
  proof (cases "str_contains ''END_OF_DAY'' (get_project (last events))")
    case True
    with c have "\<exists>a b. get_project (last events) = a @ ''END_OF_DAY'' @ b" by blast
    with True assms show ?thesis
      unfolding final_session_def Let_def by (simp only: if_True if_False sum.case)
  next
    case False
    with c have n: "\<not> (\<exists>a b. get_project (last events) = a @ ''END_OF_DAY'' @ b)" by blast
    have "final_session fromisoformat events =
        (case plus_hour dt of Inl err \<Rightarrow> Inl (err, [])
         | Inr final_end \<Rightarrow>
             Inr (dt, final_end, get_project (last events), get_event_color (last events)))"
      using False assms unfolding final_session_def Let_def
      by (simp only: if_True if_False sum.case)
    also have "\<dots> = (if hour dt < 23
       then Inr (dt, dt\<lparr>hour := hour dt + 1\<rparr>, get_project (last events), get_event_color (last events))
       else if ordinal dt < MAXORDINAL
       then Inr (dt, dt\<lparr>ordinal := ordinal dt + 1, hour := 0\<rparr>,
               get_project (last events), get_event_color (last events))
       else Inl (OverflowError, []))"
      by (simp add: plus_hour_valid [OF assms(3)])
    finally show ?thesis using n by (simp only: if_False)
  qed
qed

theorem final_session_synthesized_witness:
  "final_session iso_example
     [\<lparr>timestamp = Some ''2024-01-01T09:00:00'', project = Some ''A'', color = None\<rparr>,
      \<lparr>timestamp = Some ''2024-01-01T23:30:00'', project = Some ''B'', color = Some ''#112233''\<rparr>]
   = Inr (\<lparr>ordinal = 738886, hour = 23, minute = 30, second = 0, microsecond = 0\<rparr>,
          \<lparr>ordinal = 738887, hour = 0, minute = 30, second = 0, microsecond = 0\<rparr>, ''B'', ''#112233'')"
proof -
  let ?evs = "[\<lparr>timestamp = Some ''2024-01-01T09:00:00'', project = Some ''A'', color = None\<rparr>,
      \<lparr>timestamp = Some ''2024-01-01T23:30:00'', project = Some ''B'', color = Some ''#112233''\<rparr>]"
  let ?dt = "\<lparr>ordinal = 738886, hour = 23, minute = 30, second = 0, microsecond = 0\<rparr>"
  have 1: "?evs \<noteq> []" by simp
  have 2: "parse_event iso_example (last ?evs) = Inr ?dt"
    by (simp add: parse_event_def iso_example_def)
  have 3: "valid_datetime ?dt" by (simp add: valid_datetime_def MAXORDINAL_def)
  have "\<not> str_contains ''END_OF_DAY'' ''B''" by simp
  then have 4: "\<not> (\<exists>a b. ''B'' = a @ ''END_OF_DAY'' @ b)"
    unfolding str_contains_iff .
  show ?thesis
    using final_session_synthesized [OF 1 2 3] 4
    by (simp add: get_project_def get_event_color_def MAXORDINAL_def)
qed

text \<open>
  The claim as stated fails: a final event whose project is not the sentinel but only
  contains it still gets a session of zero duration.
\<close>

theorem final_session_sentinel_counterexample:
  "final_session iso_example
     [\<lparr>timestamp = Some ''2024-01-01T09:00:00'', project = Some ''PRE_END_OF_DAY'', color = None\<rparr>]
   = Inr (\<lparr>ordinal = 738886, hour = 9, minute = 0, second = 0, microsecond = 0\<rparr>,
          \<lparr>ordinal = 738886, hour = 9, minute = 0, second = 0, microsecond = 0\<rparr>,
          ''PRE_END_OF_DAY'', ''#cccccc'')
   \<and> ''PRE_END_OF_DAY'' \<noteq> ''END_OF_DAY''"
  by (simp add: final_session_def parse_event_def iso_example_def get_project_def
        get_event_color_def)

section \<open>ColorAssigner\<close>

lemma get_color_cached: "cache name = Some c \<Longrightarrow> get_color md5 hsv rnd name cache = (c, cache)"
  by (simp add: get_color_def)

lemma get_color_fresh:
  "cache name = None \<Longrightarrow> get_color md5 hsv rnd name cache =
     (hsv (rnd (of_nat (md5 name mod 360) / 360)) (rnd (3 / 5)) (rnd (9 / 10)),
      cache(name \<mapsto> hsv (rnd (of_nat (md5 name mod 360) / 360)) (rnd (3 / 5)) (rnd (9 / 10))))"
  by (simp add: get_color_def Let_def)

lemma get_color_stores: "snd (get_color md5 hsv rnd name cache) name = Some (fst (get_color md5 hsv rnd name cache))"
  by (cases "cache name") (simp_all add: get_color_cached get_color_fresh)

lemma cache_after_snoc:
  "cache_after md5 hsv rnd (names @ [n]) = snd (get_color md5 hsv rnd n (cache_after md5 hsv rnd names))"
  by (simp add: cache_after_def)

lemma cache_after_consistent:
  "cache_after md5 hsv rnd names n = Some c \<Longrightarrow>
     c = hsv (rnd (of_nat (md5 n mod 360) / 360)) (rnd (3 / 5)) (rnd (9 / 10))"
proof (induction names arbitrary: n c rule: rev_induct)
  case Nil
  then show ?case by (simp add: cache_after_def)
next
  case (snoc x xs)
  show ?case
  proof (cases "cache_after md5 hsv rnd xs x")
    case None
    with snoc.prems have "((cache_after md5 hsv rnd xs)
        (x \<mapsto> hsv (rnd (of_nat (md5 x mod 360) / 360)) (rnd (3 / 5)) (rnd (9 / 10)))) n = Some c"
      by (simp add: cache_after_snoc get_color_fresh)
    then show ?thesis using snoc.IH by (cases "n = x") simp_all
  next
    case (Some d)
    with snoc.prems have "cache_after md5 hsv rnd xs n = Some c"
      by (simp add: cache_after_snoc get_color_cached)
    then show ?thesis by (rule snoc.IH)
  qed
qed

text \<open>
  Claim C8. In every state a process can reach (the cache filled by earlier calls of
  \<open>get_color\<close> only), \<open>get_color\<close> returns the HSV-to-RGB conversion of the hue
  \<open>(hash mod 360) / 360\<close> with saturation 0.6 and value 0.9, where the hash is the MD5
  digest of the name read as an integer: a function of the name alone, the same in every
  call and every run. And whatever the cache holds, a second call with the same name
  returns the very value of the first.
\<close>

theorem get_color_deterministic:
  "fst (get_color md5_int hsv_to_rgb rnd name (cache_after md5_int hsv_to_rgb rnd names))
     = hsv_to_rgb (rnd (of_nat (md5_int name mod 360) / 360)) (rnd (3 / 5)) (rnd (9 / 10))
   \<and> fst (get_color md5_int hsv_to_rgb rnd name (snd (get_color md5_int hsv_to_rgb rnd name cache)))
     = fst (get_color md5_int hsv_to_rgb rnd name cache)"
proof
  show "fst (get_color md5_int hsv_to_rgb rnd name (cache_after md5_int hsv_to_rgb rnd names))
     = hsv_to_rgb (rnd (of_nat (md5_int name mod 360) / 360)) (rnd (3 / 5)) (rnd (9 / 10))"
  proof (cases "cache_after md5_int hsv_to_rgb rnd names name")
    case None
    then show ?thesis by (simp add: get_color_fresh)
  next
    case (Some c)
    then show ?thesis using cache_after_consistent [OF Some] by (simp add: get_color_cached)
  qed
next
  show "fst (get_color md5_int hsv_to_rgb rnd name (snd (get_color md5_int hsv_to_rgb rnd name cache)))
     = fst (get_color md5_int hsv_to_rgb rnd name cache)"
    using get_color_stores [of md5_int hsv_to_rgb rnd name cache] by (simp add: get_color_cached)
qed

theorem get_color_deterministic_witness:
  "fst (get_color hash_example grey_example exact ''Job1'' (cache_after hash_example grey_example exact [''Job1'', ''Job2'']))
     = (9 / 10, 9 / 10, 9 / 10)"
  using get_color_deterministic [of hash_example grey_example exact "''Job1''" "[''Job1'', ''Job2'']"]
  by (simp add: grey_example_def exact_def)

section \<open>The switch operation\<close>

text \<open>
  Claim C7, as amended. A switch to the project that is already current changes nothing.
  Any other switch appends exactly one event, with the given timestamp and project, whose
  colour is the fixed red \<open>#ff6666\<close> when the project is \<open>END_OF_DAY\<close>, else the override
  when one is given and not empty, else the hex text of the ColorAssigner's colour for the
  project; the file then holds the whole updated log, and the project is the current one.
\<close>

theorem switch_project_effect:
  "(current_project st = Some proj \<longrightarrow>
      switch_project md5_int hsv_to_rgb rnd now stamp proj color_override st = st)
   \<and> (current_project st \<noteq> Some proj \<longrightarrow>
       (let st' = switch_project md5_int hsv_to_rgb rnd now stamp proj color_override st;
            generated = rgb_to_hex rnd (fst (get_color md5_int hsv_to_rgb rnd proj (project_color_cache st)));
            col = (if proj = ''END_OF_DAY'' then ''#ff6666''
                   else (case color_override of
                           None \<Rightarrow> generated
                         | Some c \<Rightarrow> if c = [] then generated else c))
        in history st' = history st @ [\<lparr>timestamp = Some stamp, project = Some proj, color = Some col\<rparr>]
           \<and> log_file st' = Some (history st')
           \<and> current_project st' = Some proj))"
  by (auto simp: switch_project_def assigned_color_def Let_def split: prod.splits option.splits)

theorem switch_project_effect_witness:
  "history (switch_project hash_example grey_example exact
              \<lparr>ordinal = 738886, hour = 9, minute = 0, second = 0, microsecond = 0\<rparr>
              ''2024-01-01T09:00:00'' ''Job1'' (Some ''#123456'') dashboard_start)
     = [\<lparr>timestamp = Some ''2024-01-01T09:00:00'', project = Some ''Job1'', color = Some ''#123456''\<rparr>]
   \<and> switch_project hash_example grey_example exact
              \<lparr>ordinal = 738886, hour = 9, minute = 0, second = 0, microsecond = 0\<rparr>
              ''2024-01-01T09:00:00'' ''Job1'' (Some ''#123456'')
              (dashboard_start\<lparr>current_project := Some ''Job1''\<rparr>)
     = dashboard_start\<lparr>current_project := Some ''Job1''\<rparr>"
proof -
  let ?now = "\<lparr>ordinal = 738886, hour = 9, minute = 0, second = 0, microsecond = 0\<rparr>"
  have a: "current_project dashboard_start \<noteq> Some ''Job1''" by (simp add: dashboard_start_def)
  have b: "current_project (dashboard_start\<lparr>current_project := Some ''Job1''\<rparr>) = Some ''Job1''" by simp
  show ?thesis
    using switch_project_effect [of dashboard_start "''Job1''" hash_example grey_example exact ?now
        "''2024-01-01T09:00:00''" "Some ''#123456''", THEN conjunct2, rule_format, OF a]
      switch_project_effect [of "dashboard_start\<lparr>current_project := Some ''Job1''\<rparr>" "''Job1''"
        hash_example grey_example exact ?now "''2024-01-01T09:00:00''" "Some ''#123456''",
        THEN conjunct1, rule_format, OF b]
    by (simp add: Let_def dashboard_start_def)
qed

text \<open>
  The claim as stated fails: for the end-of-day sentinel an override that is given is not
  used, the event gets the fixed red.
\<close>

theorem switch_project_override_counterexample:
  "history (switch_project hash_example grey_example exact
              \<lparr>ordinal = 738886, hour = 18, minute = 0, second = 0, microsecond = 0\<rparr>
              ''2024-01-01T18:00:00'' ''END_OF_DAY'' (Some ''#123456'') dashboard_start)
     = [\<lparr>timestamp = Some ''2024-01-01T18:00:00'', project = Some ''END_OF_DAY'', color = Some ''#ff6666''\<rparr>]
   \<and> ''#ff6666'' \<noteq> ''#123456''"
  by (simp add: switch_project_def dashboard_start_def)

section \<open>SessionBuilder: sessions of adjacent events\<close>








section \<open>SessionBuilder: the order of the events\<close>

text \<open>
  Claim C4. The events are sorted on the text of the timestamp, not on the time it denotes,
  while \<open>parse_event\<close> accepts an hour that is not zero-padded. On the log below the
  event of 10:00 is placed before the event of 9:00 of the same day, since \<open>1\<close> sorts
  before \<open>9\<close>: the sessions are built from a sequence that is not ascending in time, and
  the first one ends an hour before it starts.
\<close>

theorem build_sessions_unpadded_hour_order:
  "build_sessions iso_example
     [\<lparr>timestamp = Some ''2024-01-01T9:00:00'', project = Some ''A'', color = None\<rparr>,
      \<lparr>timestamp = Some ''2024-01-01T10:00:00'', project = Some ''B'', color = None\<rparr>]
   = Inr [(\<lparr>ordinal = 738886, hour = 10, minute = 0, second = 0, microsecond = 0\<rparr>,
           \<lparr>ordinal = 738886, hour = 9, minute = 0, second = 0, microsecond = 0\<rparr>, ''B'', ''#cccccc''),
          (\<lparr>ordinal = 738886, hour = 9, minute = 0, second = 0, microsecond = 0\<rparr>,
           \<lparr>ordinal = 738886, hour = 10, minute = 0, second = 0, microsecond = 0\<rparr>, ''A'', ''#cccccc'')]"
  by (simp add: build_sessions_def sort_events_def ts_key_def less_eq_list_code parse_event_def
        iso_example_def fix_timestamp_def final_session_def get_project_def get_event_color_def
        plus_hour_def MAXORDINAL_def)

section \<open>Midnight splitting\<close>

lemma ordinal_midnight [simp]: "ordinal (midnight d) = d"
  by (simp add: midnight_def)

lemma dt_less_midnight_next [simp]: "dt_less a (midnight (Suc (ordinal a)))"
  by (simp add: dt_less_def)

lemma not_dt_less_midnight:
  "\<not> dt_less (midnight (ordinal e)) e \<Longrightarrow> e = midnight (ordinal e)"
  by (cases e) (auto simp: dt_less_def midnight_def)

lemma split_loop_closed:
  assumes "ordinal end_dt \<le> MAXORDINAL"
  shows "split_loop cur end_dt p c acc =
     Inr (if ordinal cur < ordinal end_dt then midnight (ordinal end_dt) else cur,
          acc @ map (\<lambda>a. (a, midnight (ordinal a + 1), p, c))
                  (if ordinal cur < ordinal end_dt
                   then cur # map midnight [Suc (ordinal cur)..<ordinal end_dt] else []))"
  using assms
proof (induction cur end_dt p c acc rule: split_loop.induct)
  case (1 current end_dt proj col splits)
  show ?case
  proof (cases "ordinal current < ordinal end_dt")
    case True
    with "1.prems" have de: "day_end current = Inr (midnight (Suc (ordinal current)))"
      by (simp add: day_end_def)
    note IH = "1.IH" [OF True de "1.prems"]
    show ?thesis
    proof (cases "Suc (ordinal current) < ordinal end_dt")
      case True
      then have u: "[Suc (ordinal current)..<ordinal end_dt]
          = Suc (ordinal current) # [Suc (Suc (ordinal current))..<ordinal end_dt]"
        by (simp add: upt_conv_Cons)
      show ?thesis
        using \<open>ordinal current < ordinal end_dt\<close> True
        by (subst split_loop.simps) (simp add: de IH u)
    next
      case False
      with \<open>ordinal current < ordinal end_dt\<close> have eq: "ordinal end_dt = Suc (ordinal current)"
        by simp
      show ?thesis
        using \<open>ordinal current < ordinal end_dt\<close>
        by (subst split_loop.simps) (simp add: de IH eq)
    qed
  next
    case False
    then show ?thesis by (subst split_loop.simps) simp
  qed
qed

lemma split_session_by_day_closed:
  assumes "ordinal start < ordinal end_dt" and "ordinal end_dt \<le> MAXORDINAL"
  shows "split_session_by_day start end_dt p c =
     Inr (map (\<lambda>a. (a, midnight (ordinal a + 1), p, c))
            (start # map midnight [Suc (ordinal start)..<ordinal end_dt])
          @ (if dt_less (midnight (ordinal end_dt)) end_dt
             then [(midnight (ordinal end_dt), end_dt, p, c)] else []))"
  unfolding split_session_by_day_def split_loop_closed [OF assms(2)]
  using assms(1) by simp

lemma starts_as_map:
  assumes "os < oe"
  shows "start # map midnight [Suc os..<oe]
       = map (\<lambda>k. if k = 0 then start else midnight (os + k)) [0..<oe - os]"
proof (rule nth_equalityI)
  show "length (start # map midnight [Suc os..<oe])
      = length (map (\<lambda>k. if k = 0 then start else midnight (os + k)) [0..<oe - os])"
    using assms by simp
next
  fix i
  assume "i < length (start # map midnight [Suc os..<oe])"
  then have i: "i < oe - os" using assms by simp
  show "(start # map midnight [Suc os..<oe]) ! i
      = map (\<lambda>k. if k = 0 then start else midnight (os + k)) [0..<oe - os] ! i"
  proof (cases i)
    case 0
    then show ?thesis using i by simp
  next
    case (Suc j)
    with i have "j < oe - Suc os" by simp
    then show ?thesis using Suc i by simp
  qed
qed

text \<open>
  Claim C5. A session whose start and end are on different calendar dates, with the start
  before the end, is split into fragments that tile it: the list is not empty, the first
  fragment begins at the start and the last one ends at the end of the session, every
  fragment but the last ends where the next one begins, which is the midnight that follows
  its own start, every fragment has the project and the colour of the session, and every
  fragment begins strictly before it ends.
\<close>

theorem split_session_by_day_tiles:
  assumes "ordinal start \<noteq> ordinal end_dt" and "dt_less start end_dt"
    and "ordinal end_dt \<le> MAXORDINAL"
  shows "\<exists>frags. split_session_by_day start end_dt proj col = Inr frags
     \<and> frags \<noteq> []
     \<and> fst (hd frags) = start
     \<and> fst (snd (last frags)) = end_dt
     \<and> (\<forall>i. Suc i < length frags \<longrightarrow>
            fst (snd (frags ! i)) = fst (frags ! Suc i)
          \<and> fst (snd (frags ! i)) = midnight (ordinal (fst (frags ! i)) + 1))
     \<and> (\<forall>f \<in> set frags. snd (snd f) = (proj, col) \<and> dt_less (fst f) (fst (snd f)))"
proof -
  define os where "os = ordinal start"
  define oe where "oe = ordinal end_dt"
  from assms(1,2) have lt: "os < oe" by (auto simp: dt_less_def os_def oe_def)
  define n where "n = oe - os"
  have n: "0 < n" "os + n = oe" using lt by (simp_all add: n_def)
  define st where "st = (\<lambda>k::nat. if k = 0 then start else midnight (os + k))"
  define frag where "frag = (\<lambda>a::datetime. (a, midnight (ordinal a + 1), proj, col))"
  define tail where "tail = (if dt_less (midnight oe) end_dt then [(midnight oe, end_dt, proj, col)] else [])"
  define frags where "frags = map (\<lambda>k. frag (st k)) [0..<n] @ tail"
  have ord_st: "ordinal (st k) = os + k" for k by (simp add: st_def os_def)
  have sm: "start # map midnight [Suc os..<oe] = map st [0..<n]"
    using starts_as_map [OF lt, of start] by (simp add: st_def n_def)
  have "split_session_by_day start end_dt proj col
      = Inr (map frag (start # map midnight [Suc os..<oe]) @ tail)"
    unfolding frag_def tail_def os_def oe_def
    by (rule split_session_by_day_closed) (use lt assms(3) in \<open>simp_all add: os_def oe_def\<close>)
  then have run: "split_session_by_day start end_dt proj col = Inr frags"
    by (simp only: sm frags_def map_map comp_def)
  have len: "length frags = n + length tail" by (simp add: frags_def)
  have nth_body: "frags ! i = frag (st i)" if "i < n" for i
    using that by (simp add: frags_def nth_append)
  have ne: "frags \<noteq> []" using n by (auto simp: frags_def)
  have hd: "fst (hd frags) = start"
    using n nth_body [of 0] ne by (simp add: hd_conv_nth frag_def st_def)
  have last: "fst (snd (last frags)) = end_dt"
  proof (cases "dt_less (midnight oe) end_dt")
    case True
    then show ?thesis by (simp add: frags_def tail_def)
  next
    case False
    then have e: "end_dt = midnight oe" unfolding oe_def by (rule not_dt_less_midnight)
    from False have t: "tail = []" by (simp add: tail_def)
    have "last frags = frags ! (n - 1)" using n ne by (simp add: last_conv_nth len t)
    also have "\<dots> = frag (st (n - 1))" using n by (simp add: nth_body)
    finally have "fst (snd (last frags)) = midnight (os + (n - 1) + 1)"
      by (simp add: frag_def ord_st)
    also have "\<dots> = midnight oe" using n by simp
    finally show ?thesis using e by simp
  qed
  have adj: "fst (snd (frags ! i)) = fst (frags ! Suc i)
          \<and> fst (snd (frags ! i)) = midnight (ordinal (fst (frags ! i)) + 1)"
    if "Suc i < length frags" for i
  proof -
    from that have i: "i < n" by (auto simp: len tail_def split: if_splits)
    have b: "fst (snd (frags ! i)) = midnight (os + i + 1)"
      using i by (simp add: nth_body frag_def ord_st)
    have c: "fst (frags ! Suc i) = midnight (os + i + 1)"
    proof (cases "Suc i < n")
      case True
      then show ?thesis by (simp add: nth_body frag_def st_def)
    next
      case False
      with i have eq: "Suc i = n" by simp
      with that have "tail \<noteq> []" by (auto simp: len)
      then have "tail = [(midnight oe, end_dt, proj, col)]" by (simp add: tail_def split: if_splits)
      then have "frags ! Suc i = (midnight oe, end_dt, proj, col)"
        using eq by (simp add: frags_def nth_append)
      then show ?thesis using eq n by auto
    qed
    from b c show ?thesis using i by (simp add: nth_body frag_def ord_st)
  qed
  have all: "snd (snd f) = (proj, col) \<and> dt_less (fst f) (fst (snd f))" if "f \<in> set frags" for f
    using that
    by (auto simp: frags_def frag_def tail_def split: if_splits)
  from run ne hd last adj all show ?thesis by blast
qed

theorem split_session_by_day_tiles_witness:
  "split_session_by_day
      \<lparr>ordinal = 738886, hour = 23, minute = 30, second = 0, microsecond = 0\<rparr>
      \<lparr>ordinal = 738887, hour = 0, minute = 30, second = 0, microsecond = 0\<rparr> ''A'' ''#cccccc''
   = Inr [(\<lparr>ordinal = 738886, hour = 23, minute = 30, second = 0, microsecond = 0\<rparr>,
           \<lparr>ordinal = 738887, hour = 0, minute = 0, second = 0, microsecond = 0\<rparr>, ''A'', ''#cccccc''),
          (\<lparr>ordinal = 738887, hour = 0, minute = 0, second = 0, microsecond = 0\<rparr>,
           \<lparr>ordinal = 738887, hour = 0, minute = 30, second = 0, microsecond = 0\<rparr>, ''A'', ''#cccccc'')]"
proof -
  let ?s = "\<lparr>ordinal = 738886, hour = 23, minute = 30, second = 0, microsecond = 0\<rparr>"
  let ?e = "\<lparr>ordinal = 738887, hour = 0, minute = 30, second = 0, microsecond = 0\<rparr>"
  have 1: "ordinal ?s \<noteq> ordinal ?e" by simp
  have 2: "dt_less ?s ?e" by (simp add: dt_less_def)
  have 3: "ordinal ?e \<le> MAXORDINAL" by (simp add: MAXORDINAL_def)
  from split_session_by_day_tiles [OF 1 2 3, of "''A''" "''#cccccc''"]
  obtain frags where "split_session_by_day ?s ?e ''A'' ''#cccccc'' = Inr frags" by blast
  moreover have "split_session_by_day ?s ?e ''A'' ''#cccccc''
     = Inr [(?s, \<lparr>ordinal = 738887, hour = 0, minute = 0, second = 0, microsecond = 0\<rparr>, ''A'', ''#cccccc''),
            (\<lparr>ordinal = 738887, hour = 0, minute = 0, second = 0, microsecond = 0\<rparr>, ?e, ''A'', ''#cccccc'')]"
    using 3 by (simp add: split_session_by_day_closed dt_less_def midnight_def)
  ultimately show ?thesis by simp
qed

section \<open>Grouping by day\<close>

lemma group_by_day_snoc: "group_by_day (ss @ [s]) = add_session (group_by_day ss) s"
  by (simp add: group_by_day_def)

lemma map_of_add_session:
  "map_of (add_session by_day s) d =
     (if d = ordinal (fst s)
      then Some ((case map_of by_day d of None \<Rightarrow> [] | Some l \<Rightarrow> l) @ [s])
      else map_of by_day d)"
  by (simp add: add_session_def Let_def update_conv')

lemma map_of_group_by_day:
  "map_of (group_by_day ss) d =
     (if d \<in> (\<lambda>s. ordinal (fst s)) ` set ss
      then Some (filter (\<lambda>s. ordinal (fst s) = d) ss) else None)"
proof (induction ss rule: rev_induct)
  case Nil
  show ?case by (simp add: group_by_day_def)
next
  case (snoc s ss)
  show ?case
    unfolding group_by_day_snoc map_of_add_session snoc.IH
    by (auto simp: image_iff empty_filter_conv)
qed

lemma distinct_group_by_day: "distinct (map fst (group_by_day ss))"
proof (induction ss rule: rev_induct)
  case Nil
  show ?case by (simp add: group_by_day_def)
next
  case (snoc s ss)
  then show ?case
    unfolding group_by_day_snoc add_session_def Let_def by (rule distinct_update)
qed

lemma keys_group_by_day: "set (map fst (group_by_day ss)) = (\<lambda>s. ordinal (fst s)) ` set ss"
proof -
  have "set (map fst (group_by_day ss)) = dom (map_of (group_by_day ss))"
    by (simp add: dom_map_of_conv_image_fst)
  also have "\<dots> = (\<lambda>s. ordinal (fst s)) ` set ss"
    by (auto simp: dom_def map_of_group_by_day)
  finally show ?thesis .
qed

lemma sorted_days_group_by_day:
  "sorted_days (group_by_day ss) = sorted_list_of_set ((\<lambda>s. ordinal (fst s)) ` set ss)"
proof -
  have "sorted_list_of_set (set (map fst (group_by_day ss))) = sort (map fst (group_by_day ss))"
    by (simp only: sorted_list_of_set_sort_remdups distinct_remdups_id [OF distinct_group_by_day])
  then show ?thesis by (simp only: sorted_days_def keys_group_by_day)
qed

section \<open>The sessions after the splitting pass\<close>








section \<open>TimelineLayout: properties\<close>





end
